theory Spec2Isabelle
  imports Main "HOL-Library.Word" "HOL-Library.Sublist"
begin

unbundle bit_operations_syntax

section \<open>The platform under the driver\<close>

text \<open>
  \<^verbatim>\<open>u1wire.c\<close> drives one pin through three macros, waits with \<^verbatim>\<open>DELAY_US\<close> and brackets
  its timed sections with \<^verbatim>\<open>irq_global_disable\<close> / \<^verbatim>\<open>irq_global_enable\<close>. The pin is
  either configured as a pulled-up input (released) or as an output forced low (driven).

  Modelled from the spec: \<^verbatim>\<open>pio.h\<close> is not among the sources. The spec gives the pin
  operations as unable to fail: \<^verbatim>\<open>pio_config_set\<close> sets the configuration of the pin and
  \<^verbatim>\<open>pio_input_get\<close> samples its level, which only the environment decides.
\<close>

datatype pio_config = PIO_CONFIG_PULLUP | PIO_CONFIG_OUTPUT_LOW

text \<open>
  What the driver does to the platform, in program order. \<open>Test b\<close> is one call of
  \<^verbatim>\<open>pio_input_get\<close> that returned \<open>b\<close>; \<open>Delay n\<close> is \<^verbatim>\<open>DELAY_US (n)\<close>.
\<close>

datatype event = Release | Drive | Delay nat | Test bool | Irq_disable | Irq_enable

text \<open>
  The state the driver acts on. \<open>pio\<close> is the present configuration of \<^verbatim>\<open>U1WIRE_PIO\<close>,
  \<open>irq\<close> tells whether global interrupts are enabled, \<open>level\<close> is the environment (the
  level that the k-th call of \<^verbatim>\<open>pio_input_get\<close> returns, high being \<open>True\<close>), \<open>tests\<close>
  counts the calls made so far, and \<open>trace\<close> lists the events so far, oldest first.
\<close>

record bus =
  pio :: pio_config
  irq :: bool
  level :: "nat \<Rightarrow> bool"
  tests :: nat
  trace :: "event list"

definition emit :: "event \<Rightarrow> bus \<Rightarrow> bus" where
  "emit e s = s\<lparr>trace := trace s @ [e]\<rparr>"

text \<open>\<^verbatim>\<open>#define U1WIRE_RELEASE() pio_config_set (U1WIRE_PIO, PIO_CONFIG_PULLUP)\<close>\<close>

definition U1WIRE_RELEASE :: "bus \<Rightarrow> bus" where
  "U1WIRE_RELEASE s = emit Release (s\<lparr>pio := PIO_CONFIG_PULLUP\<rparr>)"

text \<open>\<^verbatim>\<open>#define U1WIRE_DRIVE() pio_config_set (U1WIRE_PIO, PIO_CONFIG_OUTPUT_LOW)\<close>\<close>

definition U1WIRE_DRIVE :: "bus \<Rightarrow> bus" where
  "U1WIRE_DRIVE s = emit Drive (s\<lparr>pio := PIO_CONFIG_OUTPUT_LOW\<rparr>)"

text \<open>\<^verbatim>\<open>#define U1WIRE_TEST() pio_input_get (U1WIRE_PIO)\<close>: the next level of the environment.\<close>

definition U1WIRE_TEST :: "bus \<Rightarrow> bool \<times> bus" where
  "U1WIRE_TEST s =
     (let b = level s (tests s) in (b, emit (Test b) (s\<lparr>tests := Suc (tests s)\<rparr>)))"

text \<open>
  Modelled from the spec: \<^verbatim>\<open>delay.h\<close> is not among the sources. The spec gives
  \<^verbatim>\<open>DELAY_US\<close> as a busy-wait of the given number of microseconds that cannot fail; the
  model records the wait and changes nothing else.
\<close>

definition DELAY_US :: "nat \<Rightarrow> bus \<Rightarrow> bus" where
  "DELAY_US n s = emit (Delay n) s"

text \<open>
  Modelled from the spec: \<^verbatim>\<open>irq.h\<close> is not among the sources. The spec gives the interrupt
  mask as global and of depth one: masking disables interrupts, unmasking enables them,
  whatever the mask was before.
\<close>

definition irq_global_disable :: "bus \<Rightarrow> bus" where
  "irq_global_disable s = emit Irq_disable (s\<lparr>irq := False\<rparr>)"

definition irq_global_enable :: "bus \<Rightarrow> bus" where
  "irq_global_enable s = emit Irq_enable (s\<lparr>irq := True\<rparr>)"

text \<open>The events that a call taking \<open>s\<close> to \<open>s'\<close> has added to the trace.\<close>

definition emitted :: "bus \<Rightarrow> bus \<Rightarrow> event list" where
  "emitted s s' = drop (length (trace s)) (trace s')"

section \<open>Constants of the driver\<close>

definition U1WIRE_READ_ROM :: "8 word" where "U1WIRE_READ_ROM = 0x33"
definition U1WIRE_SKIP_ROM :: "8 word" where "U1WIRE_SKIP_ROM = 0xcc"
definition U1WIRE_MATCH_ROM :: "8 word" where "U1WIRE_MATCH_ROM = 0x55"
definition U1WIRE_RECALL :: "8 word" where "U1WIRE_RECALL = 0xb8"

definition U1WIRE_DELAY_OFFSET :: nat where "U1WIRE_DELAY_OFFSET = 6"

text \<open>
  The \<^verbatim>\<open>U1WIRE_ERR_*\<close> constants are declared in \<^verbatim>\<open>u1wire.h\<close>, which is not among the
  sources, so their values are a parameter of the model. \<^verbatim>\<open>u1wire_reset\<close> is documented
  to return 1 if OK, 0 if no device is responding and a negative value on error;
  \<open>u1wire_errs_ok\<close> says that of the constants: each is positive, its negation fits an
  \<^verbatim>\<open>int8_t\<close>, and no two are equal.
\<close>

record u1wire_errs =
  U1WIRE_ERR_BUS_LOW :: int
  U1WIRE_ERR_BUS_HIGH :: int
  U1WIRE_ERR_BUS_STUCK :: int
  U1WIRE_ERR_PRESENCE_SHORT :: int
  U1WIRE_ERR_PRESENCE_LONG :: int

definition u1wire_errs_list :: "u1wire_errs \<Rightarrow> int list" where
  "u1wire_errs_list E =
     [U1WIRE_ERR_BUS_LOW E, U1WIRE_ERR_BUS_HIGH E, U1WIRE_ERR_BUS_STUCK E,
      U1WIRE_ERR_PRESENCE_SHORT E, U1WIRE_ERR_PRESENCE_LONG E]"

definition u1wire_errs_ok :: "u1wire_errs \<Rightarrow> bool" where
  "u1wire_errs_ok E \<longleftrightarrow>
     distinct (u1wire_errs_list E) \<and> list_all (\<lambda>c. 0 < c \<and> c \<le> 128) (u1wire_errs_list E)"

section \<open>Bus reset\<close>

text \<open>\<^verbatim>\<open>int8_t u1wire_reset (void)\<close>, statement by statement.\<close>

definition u1wire_reset :: "u1wire_errs \<Rightarrow> bus \<Rightarrow> int \<times> bus" where
  "u1wire_reset E s0 =
     (let s1 = DELAY_US 5 (U1WIRE_RELEASE s0);
          (t1, s2) = U1WIRE_TEST s1
      in if \<not> t1 then (- U1WIRE_ERR_BUS_LOW E, s2)
      else
        let s3 = DELAY_US 250 (U1WIRE_DRIVE (irq_global_disable s2));
            (t2, s4) = U1WIRE_TEST s3
        in if t2 then (- U1WIRE_ERR_BUS_HIGH E, irq_global_enable (U1WIRE_RELEASE s4))
        else
          let s5 = DELAY_US 10 (U1WIRE_RELEASE (DELAY_US 250 s4));
              (t3, s6) = U1WIRE_TEST s5
          in if \<not> t3 then (- U1WIRE_ERR_BUS_STUCK E, irq_global_enable s6)
          else
            let (t4, s7) = U1WIRE_TEST (DELAY_US 60 s6)
            in if t4 then (0, irq_global_enable s7)
            else
              let (t5, s8) = U1WIRE_TEST (DELAY_US 10 s7)
              in if t5 then (- U1WIRE_ERR_PRESENCE_SHORT E, irq_global_enable s8)
              else
                let (t6, s9) = U1WIRE_TEST (DELAY_US 240 s8)
                in if \<not> t6 then (- U1WIRE_ERR_PRESENCE_LONG E, irq_global_enable s9)
                else (1, irq_global_enable (DELAY_US (480 - 240) s9)))"

section \<open>Bit and byte transfer\<close>

text \<open>\<^verbatim>\<open>void u1wire_bit_write (uint8_t value)\<close>\<close>

definition u1wire_bit_write :: "8 word \<Rightarrow> bus \<Rightarrow> bus" where
  "u1wire_bit_write v s0 =
     (let s1 = irq_global_disable s0;
          s2 = DELAY_US (10 - U1WIRE_DELAY_OFFSET) (U1WIRE_DRIVE s1);
          s3 = (if v \<noteq> 0 then U1WIRE_RELEASE s2 else s2);
          s4 = U1WIRE_RELEASE (DELAY_US (60 - U1WIRE_DELAY_OFFSET) s3)
      in irq_global_enable s4)"

text \<open>
  \<^verbatim>\<open>void u1wire_byte_write (uint8_t value)\<close>: the loop
  \<^verbatim>\<open>for (i = 0; i < 8; i++) { u1wire_bit_write (value & 0x01); value >>= 1; }\<close>
  entered at counter \<open>i\<close>. The counter stays within 0..8, so its \<^verbatim>\<open>int8_t\<close> never wraps.
\<close>

function u1wire_byte_write_loop :: "nat \<Rightarrow> 8 word \<Rightarrow> bus \<Rightarrow> bus" where
  "u1wire_byte_write_loop i v s =
     (if i < 8 then u1wire_byte_write_loop (i + 1) (drop_bit 1 v) (u1wire_bit_write (v AND 0x01) s)
      else s)"
  by pat_completeness auto
termination
  by (relation "measure (\<lambda>(i, v, s). 8 - i)") auto

declare u1wire_byte_write_loop.simps [simp del]

definition u1wire_byte_write :: "8 word \<Rightarrow> bus \<Rightarrow> bus" where
  "u1wire_byte_write v s = u1wire_byte_write_loop 0 v s"

text \<open>\<^verbatim>\<open>uint8_t u1wire_bit_read (void)\<close>; a high level reads as 1.\<close>

definition u1wire_bit_read :: "bus \<Rightarrow> 8 word \<times> bus" where
  "u1wire_bit_read s0 =
     (let s1 = irq_global_disable s0;
          s2 = U1WIRE_RELEASE (DELAY_US (2 - 1) (U1WIRE_DRIVE s1));
          s3 = DELAY_US (12 - U1WIRE_DELAY_OFFSET) s2;
          (t, s4) = U1WIRE_TEST s3;
          s5 = DELAY_US 60 s4
      in (if t then 1 else 0, irq_global_enable s5))"

text \<open>
  \<^verbatim>\<open>uint8_t u1wire_byte_read (void)\<close>: the loop
  \<^verbatim>\<open>for (i = 0; i < 8; i++) { value >>= 1; if (u1wire_bit_read ()) value |= BIT (7); }\<close>
  entered at counter \<open>i\<close> with the bits composed so far in \<open>v\<close>. \<^verbatim>\<open>BIT (7)\<close> comes from
  \<^verbatim>\<open>config.h\<close>, which is not among the sources; it is the mask with only bit 7 set.
\<close>

function u1wire_byte_read_loop :: "nat \<Rightarrow> 8 word \<Rightarrow> bus \<Rightarrow> 8 word \<times> bus" where
  "u1wire_byte_read_loop i v s =
     (if i < 8 then
        (let v1 = drop_bit 1 v;
             (b, s1) = u1wire_bit_read s
         in u1wire_byte_read_loop (i + 1) (if b \<noteq> 0 then v1 OR push_bit 7 1 else v1) s1)
      else (v, s))"
  by pat_completeness auto
termination
  by (relation "measure (\<lambda>(i, v, s). 8 - i)") auto

declare u1wire_byte_read_loop.simps [simp del]

definition u1wire_byte_read :: "bus \<Rightarrow> 8 word \<times> bus" where
  "u1wire_byte_read s = u1wire_byte_read_loop 0 0 s"

section \<open>Buffers and devices\<close>

text \<open>
  A \<^verbatim>\<open>void *data\<close> points into memory, which is a store of bytes by address. The loops
  below walk \<^verbatim>\<open>uint8_t *buffer\<close> through it with \<^verbatim>\<open>*buffer++\<close>.
\<close>

type_synonym mem = "nat \<Rightarrow> 8 word"

lemma u8_unat_Suc: "(i :: 8 word) < sz \<Longrightarrow> unat (i + 1) = Suc (unat i)"
proof -
  assume "i < sz"
  then have "unat i < unat sz" by (simp add: word_less_nat_alt)
  moreover have "unat sz < 2 ^ LENGTH(8)" by (rule unsigned_less)
  ultimately have "unat i + unat (1 :: 8 word) < 2 ^ LENGTH(8)" by simp
  then have "unat (i + 1) = unat i + unat (1 :: 8 word)" by (simp only: unat_add_lem)
  then show ?thesis by simp
qed

lemma u8_loop_measure: "(i :: 8 word) < sz \<Longrightarrow> unat sz - unat (i + 1) < unat sz - unat i"
  by (simp add: u8_unat_Suc word_less_nat_alt)

text \<open>
  \<^verbatim>\<open>int8_t u1wire_read (void *data, uint8_t size)\<close>: the loop
  \<^verbatim>\<open>for (i = 0; i < size; i++) *buffer++ = u1wire_byte_read ();\<close> with its \<^verbatim>\<open>uint8_t\<close>
  counter, entered at \<open>i\<close>; it yields the final counter.
\<close>

function u1wire_read_loop :: "8 word \<Rightarrow> 8 word \<Rightarrow> nat \<Rightarrow> mem \<Rightarrow> bus \<Rightarrow> 8 word \<times> mem \<times> bus" where
  "u1wire_read_loop i sz buffer m s =
     (if i < sz then
        (let (b, s1) = u1wire_byte_read s
         in u1wire_read_loop (i + 1) sz (buffer + 1) (m(buffer := b)) s1)
      else (i, m, s))"
  by pat_completeness auto
termination
  by (relation "measure (\<lambda>(i, sz, buffer, m, s). unat sz - unat i)")
    (auto simp: u8_loop_measure)

declare u1wire_read_loop.simps [simp del]

text \<open>
  \<^verbatim>\<open>return i;\<close> hands the \<^verbatim>\<open>uint8_t\<close> counter back through the \<^verbatim>\<open>int8_t\<close> return type:
  the same eight bits read as two's complement (what gcc and clang define for the
  conversion), which is \<open>sint\<close>.
\<close>

definition u1wire_read :: "nat \<Rightarrow> 8 word \<Rightarrow> mem \<Rightarrow> bus \<Rightarrow> int \<times> mem \<times> bus" where
  "u1wire_read data sz m s =
     (let (i, m1, s1) = u1wire_read_loop 0 sz data m s in (sint i, m1, s1))"

text \<open>
  \<^verbatim>\<open>int8_t u1wire_write (void *data, uint8_t size)\<close>: the loop
  \<^verbatim>\<open>for (i = 0; i < size; i++) u1wire_byte_write (*buffer++);\<close>
\<close>

function u1wire_write_loop :: "8 word \<Rightarrow> 8 word \<Rightarrow> nat \<Rightarrow> mem \<Rightarrow> bus \<Rightarrow> 8 word \<times> bus" where
  "u1wire_write_loop i sz buffer m s =
     (if i < sz then
        u1wire_write_loop (i + 1) sz (buffer + 1) m (u1wire_byte_write (m buffer) s)
      else (i, s))"
  by pat_completeness auto
termination
  by (relation "measure (\<lambda>(i, sz, buffer, m, s). unat sz - unat i)")
    (auto simp: u8_loop_measure)

declare u1wire_write_loop.simps [simp del]

definition u1wire_write :: "nat \<Rightarrow> 8 word \<Rightarrow> mem \<Rightarrow> bus \<Rightarrow> int \<times> bus" where
  "u1wire_write data sz m s =
     (let (i, s1) = u1wire_write_loop 0 sz data m s in (sint i, s1))"

text \<open>
  Modelled from the spec: \<^verbatim>\<open>u1wire.h\<close>, which declares the device structure, is not among
  the sources. The spec gives a device as a handle that holds the ROM code, 8 bytes (family
  code, 6 bytes of serial number, CRC). A \<^verbatim>\<open>u1wire_t\<close> is the address of the structure,
  \<open>rom_code dev\<close> is \<^verbatim>\<open>&dev->rom_code\<close> and \<open>sizeof_rom_code\<close> is
  \<^verbatim>\<open>sizeof (dev->rom_code)\<close>.
\<close>

definition rom_code :: "nat \<Rightarrow> nat" where
  "rom_code dev = dev"

definition sizeof_rom_code :: "8 word" where
  "sizeof_rom_code = 8"

section \<open>Device protocol\<close>

text \<open>\<^verbatim>\<open>static int8_t u1wire_rom_code_read (u1wire_t dev)\<close>\<close>

definition u1wire_rom_code_read :: "u1wire_errs \<Rightarrow> nat \<Rightarrow> mem \<Rightarrow> bus \<Rightarrow> int \<times> mem \<times> bus" where
  "u1wire_rom_code_read E dev m s0 =
     (let (ret, s1) = u1wire_reset E s0
      in if ret \<noteq> 1 then (ret, m, s1)
      else
        let s2 = u1wire_byte_write U1WIRE_READ_ROM s1;
            (n, m1, s3) = u1wire_read (rom_code dev) sizeof_rom_code m s2;
            s4 = u1wire_byte_write U1WIRE_RECALL s3
        in (1, m1, s4))"

text \<open>\<^verbatim>\<open>int8_t u1wire_command (u1wire_t dev, uint8_t command)\<close>\<close>

definition u1wire_command :: "u1wire_errs \<Rightarrow> nat \<Rightarrow> 8 word \<Rightarrow> mem \<Rightarrow> bus \<Rightarrow> int \<times> bus" where
  "u1wire_command E dev command m s0 =
     (let (ret, s1) = u1wire_reset E s0
      in if ret \<noteq> 1 then (ret, s1)
      else
        let s2 = u1wire_byte_write U1WIRE_MATCH_ROM s1;
            (n, s3) = u1wire_write (rom_code dev) sizeof_rom_code m s2;
            s4 = u1wire_byte_write command s3
        in (1, s4))"

text \<open>\<^verbatim>\<open>int8_t u1wire_broadcast (uint8_t command)\<close>\<close>

definition u1wire_broadcast :: "u1wire_errs \<Rightarrow> 8 word \<Rightarrow> bus \<Rightarrow> int \<times> bus" where
  "u1wire_broadcast E command s0 =
     (let (ret, s1) = u1wire_reset E s0
      in if ret \<noteq> 1 then (ret, s1)
      else
        let s2 = u1wire_byte_write U1WIRE_SKIP_ROM s1;
            s3 = u1wire_byte_write command s2
        in (1, s3))"

text \<open>\<^verbatim>\<open>bool u1wire_ready_p (void)\<close>\<close>

definition u1wire_ready_p :: "bus \<Rightarrow> bool \<times> bus" where
  "u1wire_ready_p s = (let (b, s1) = u1wire_bit_read s in (b \<noteq> 0, s1))"

text \<open>\<^verbatim>\<open>int8_t u1wire_init (u1wire_obj_t *device)\<close>\<close>

definition u1wire_init :: "u1wire_errs \<Rightarrow> nat \<Rightarrow> mem \<Rightarrow> bus \<Rightarrow> int \<times> mem \<times> bus" where
  "u1wire_init E device m s = u1wire_rom_code_read E device m (U1WIRE_RELEASE s)"

section \<open>Reading a trace\<close>

text \<open>
  The time for which the line is driven low over a run of events: the sum of the delays
  that pass while the pin is configured as an output forced low. \<open>c\<close> is the configuration
  at the start of the run.
\<close>

fun low_time :: "pio_config \<Rightarrow> event list \<Rightarrow> nat" where
  "low_time c [] = 0"
| "low_time c (Drive # es) = low_time PIO_CONFIG_OUTPUT_LOW es"
| "low_time c (Release # es) = low_time PIO_CONFIG_PULLUP es"
| "low_time c (Delay n # es) = (if c = PIO_CONFIG_OUTPUT_LOW then n else 0) + low_time c es"
| "low_time c (e # es) = low_time c es"

text \<open>The width of a low pulse: the delays from here up to the next release of the line.\<close>

fun pulse_width :: "event list \<Rightarrow> nat" where
  "pulse_width [] = 0"
| "pulse_width (Release # es) = 0"
| "pulse_width (Delay n # es) = n + pulse_width es"
| "pulse_width (e # es) = pulse_width es"

text \<open>
  What a device on the line takes from write slots. Each slot starts where the master
  drives the line low; a device samples the line from 15 microseconds after that edge, so
  it takes a 1 when the master has released the line by then and a 0 otherwise.
\<close>

fun written_bits :: "event list \<Rightarrow> bool list" where
  "written_bits [] = []"
| "written_bits (Drive # es) = (pulse_width es < 15) # written_bits es"
| "written_bits (e # es) = written_bits es"

text \<open>Bits in transfer order, least significant first, as bytes; a last incomplete byte is dropped.\<close>

definition byte_of_bits :: "bool list \<Rightarrow> 8 word" where
  "byte_of_bits bs = horner_sum of_bool 2 (take 8 bs)"

fun bytes_of_bits :: "bool list \<Rightarrow> 8 word list" where
  "bytes_of_bits bs =
     (if length bs < 8 then [] else byte_of_bits bs # bytes_of_bits (drop 8 bs))"

declare bytes_of_bits.simps [simp del]

text \<open>The levels that the next \<open>n\<close> calls of \<^verbatim>\<open>pio_input_get\<close> return in state \<open>s\<close>.\<close>

definition next_levels :: "bus \<Rightarrow> nat \<Rightarrow> bool list" where
  "next_levels s n = map (\<lambda>k. level s (tests s + k)) [0..<n]"

text \<open>The k-th byte that the line returns from state \<open>s\<close> on, least significant bit first.\<close>

definition level_byte :: "bus \<Rightarrow> nat \<Rightarrow> 8 word" where
  "level_byte s k = byte_of_bits (map (\<lambda>j. level s (tests s + 8 * k + j)) [0..<8])"

text \<open>
  The level sampled \<open>t\<close> microseconds into a run of events, counting the delays; \<open>None\<close>
  when the run takes no sample at that time.
\<close>

fun sampled_at :: "nat \<Rightarrow> event list \<Rightarrow> bool option" where
  "sampled_at t [] = None"
| "sampled_at t (Delay n # es) = (if n \<le> t then sampled_at (t - n) es else None)"
| "sampled_at t (Test b # es) = (if t = 0 then Some b else sampled_at t es)"
| "sampled_at t (e # es) = sampled_at t es"

section \<open>Events of a write slot and example inputs\<close>

text \<open>The events of one call of \<^verbatim>\<open>u1wire_bit_write\<close>, by whether its argument is nonzero.\<close>

definition bit_write_events :: "bool \<Rightarrow> event list" where
  "bit_write_events b =
     [Irq_disable, Drive, Delay 4] @ (if b then [Release] else []) @ [Delay 54, Release, Irq_enable]"

definition byte_write_events :: "8 word \<Rightarrow> event list" where
  "byte_write_events v = concat (map (\<lambda>k. bit_write_events (bit v k)) [0..<8])"

text \<open>
  Inputs for concrete runs: an environment that returns the levels of a list and then
  stays high, as a pulled-up line does; a bus at rest with a given environment and
  interrupt state; and a choice of error constants.
\<close>

definition levels_of :: "bool list \<Rightarrow> nat \<Rightarrow> bool" where
  "levels_of bs k = (if k < length bs then bs ! k else True)"

definition idle_bus :: "bool \<Rightarrow> bool list \<Rightarrow> bus" where
  "idle_bus i bs = \<lparr>pio = PIO_CONFIG_PULLUP, irq = i, level = levels_of bs, tests = 0, trace = []\<rparr>"

definition example_errs :: u1wire_errs where
  "example_errs = \<lparr>U1WIRE_ERR_BUS_LOW = 1, U1WIRE_ERR_BUS_HIGH = 2, U1WIRE_ERR_BUS_STUCK = 3,
     U1WIRE_ERR_PRESENCE_SHORT = 4, U1WIRE_ERR_PRESENCE_LONG = 5\<rparr>"

text \<open>
  A memory holding the bytes of a list from address 0 and zero elsewhere; the levels of a
  reset that finds a device; a ROM code (family code 28, six bytes of serial number, a
  check byte) with its 64 bits in transfer order; and a line on which a device answers a
  reset, then 64 read slots with the bits of that ROM code, then a second reset.
\<close>

definition mem_of :: "8 word list \<Rightarrow> mem" where
  "mem_of bs a = (if a < length bs then bs ! a else 0)"

definition presence_levels :: "bool list" where
  "presence_levels = [True, False, True, False, False, True]"

definition example_rom :: "8 word list" where
  "example_rom = [0x28, 0xff, 0x4b, 0x46, 0x92, 0x16, 0x04, 0x5d]"

definition rom_bits :: "bool list" where
  "rom_bits = concat (map (\<lambda>v. map (bit v) [0..<8]) example_rom)"

definition rom_levels :: "bool list" where
  "rom_levels = presence_levels @ rom_bits @ presence_levels"

section \<open>Bit and byte transfer: what a call does\<close>

lemmas prim_defs = emit_def U1WIRE_RELEASE_def U1WIRE_DRIVE_def U1WIRE_TEST_def DELAY_US_def
  irq_global_disable_def irq_global_enable_def

lemma bit_write_eq:
  "u1wire_bit_write v s =
     s\<lparr>pio := PIO_CONFIG_PULLUP, irq := True, trace := trace s @ bit_write_events (v \<noteq> 0)\<rparr>"
  by (simp add: u1wire_bit_write_def prim_defs Let_def U1WIRE_DELAY_OFFSET_def bit_write_events_def)

lemma lsb_test: "((drop_bit k (v :: 8 word)) AND 1 \<noteq> 0) = bit v k"
  by (simp add: and_one_eq bit_iff_odd_drop_bit odd_iff_mod_2_eq_one)

lemma upt8: "[0..<8] = [0,1,2,3,4,5,6,7]"
  by (simp add: upt_rec)

lemma byte_write_eq:
  "u1wire_byte_write v s =
     s\<lparr>pio := PIO_CONFIG_PULLUP, irq := True, trace := trace s @ byte_write_events v\<rparr>"
  using lsb_test [of 0 v]
  by (simp add: u1wire_byte_write_def u1wire_byte_write_loop.simps bit_write_eq
      lsb_test byte_write_events_def upt8 eval_nat_numeral)

lemma written_bits_bit_write: "written_bits (bit_write_events b @ es) = b # written_bits es"
  by (simp add: bit_write_events_def)

lemma written_bits_byte_write: "written_bits (byte_write_events v @ es) = map (bit v) [0..<8] @ written_bits es"
  by (simp add: byte_write_events_def upt8 written_bits_bit_write)

lemma bit_read_fst: "fst (u1wire_bit_read s) = of_bool (level s (tests s))"
  by (simp add: u1wire_bit_read_def prim_defs Let_def)

lemma bit_read_level: "level (snd (u1wire_bit_read s)) = level s"
  by (simp add: u1wire_bit_read_def prim_defs Let_def)

lemma bit_read_tests: "tests (snd (u1wire_bit_read s)) = Suc (tests s)"
  by (simp add: u1wire_bit_read_def prim_defs Let_def)


lemma byte_read_loop_step:
  "i < 8 \<Longrightarrow> u1wire_byte_read_loop i v s =
     u1wire_byte_read_loop (i + 1) (drop_bit 1 v OR push_bit 7 (of_bool (level s (tests s))))
       (snd (u1wire_bit_read s))"
  by (subst u1wire_byte_read_loop.simps) (simp add: split_beta bit_read_fst)

lemma byte_read_loop_done: "u1wire_byte_read_loop 8 v s = (v, s)"
  by (subst u1wire_byte_read_loop.simps) simp

lemma shift_in_bit:
  "n < 8 \<Longrightarrow> bit (drop_bit 1 v OR push_bit 7 (of_bool l) :: 8 word) n \<longleftrightarrow> (if n = 7 then l else bit v (Suc n))"
  by (auto simp add: bit_simps dest: bit_imp_le_length)

lemma byte_read_loop_inv:
  "i + j = 8 \<Longrightarrow>
     level (snd (u1wire_byte_read_loop i v s)) = level s \<and>
     tests (snd (u1wire_byte_read_loop i v s)) = tests s + j \<and>
     (\<forall>n<8. bit (fst (u1wire_byte_read_loop i v s)) n \<longleftrightarrow>
        (if n + j < 8 then bit v (n + j) else level s (tests s + (n + j - 8))))"
proof (induction j arbitrary: i v s)
  case 0
  then show ?case by (simp add: byte_read_loop_done)
next
  case (Suc j)
  define v' :: "8 word" where "v' = drop_bit 1 v OR push_bit 7 (of_bool (level s (tests s)))"
  define s' where "s' = snd (u1wire_bit_read s)"
  from Suc.prems have i: "i < 8" and ij: "(i + 1) + j = 8" by simp_all
  have step: "u1wire_byte_read_loop i v s = u1wire_byte_read_loop (i + 1) v' s'"
    unfolding v'_def s'_def using i by (rule byte_read_loop_step)
  have s': "level s' = level s" "tests s' = Suc (tests s)"
    by (simp_all add: s'_def bit_read_level bit_read_tests)
  have v': "bit v' m \<longleftrightarrow> (if m = 7 then level s (tests s) else bit v (Suc m))" if "m < 8" for m
    unfolding v'_def using that by (rule shift_in_bit)
  note IH = Suc.IH [OF ij, of v' s']
  show ?case
  proof (intro conjI allI impI)
    show "level (snd (u1wire_byte_read_loop i v s)) = level s"
      using IH by (simp add: step s')
    show "tests (snd (u1wire_byte_read_loop i v s)) = tests s + Suc j"
      using IH by (simp add: step s')
    fix n :: nat assume n: "n < 8"
    from IH n have *: "bit (fst (u1wire_byte_read_loop i v s)) n \<longleftrightarrow>
        (if n + j < 8 then bit v' (n + j) else level s (Suc (tests s) + (n + j - 8)))"
      by (simp add: step s')
    consider "n + j < 7" | "n + j = 7" | "8 \<le> n + j" by linarith
    then show "bit (fst (u1wire_byte_read_loop i v s)) n \<longleftrightarrow>
        (if n + Suc j < 8 then bit v (n + Suc j) else level s (tests s + (n + Suc j - 8)))"
    proof cases
      case 1
      then show ?thesis using * by (simp add: v')
    next
      case 2
      then show ?thesis using * by (simp add: v')
    next
      case 3
      then have "Suc (tests s) + (n + j - 8) = tests s + (n + Suc j - 8)" by arith
      with 3 show ?thesis using * by simp
    qed
  qed
qed

lemma byte_read_level: "level (snd (u1wire_byte_read s)) = level s"
  using byte_read_loop_inv [of 0 8 0 s] by (simp add: u1wire_byte_read_def)

lemma byte_read_tests: "tests (snd (u1wire_byte_read s)) = tests s + 8"
  using byte_read_loop_inv [of 0 8 0 s] by (simp add: u1wire_byte_read_def)

lemma byte_of_bits_bit:
  "bit (byte_of_bits bs) n \<longleftrightarrow> n < 8 \<and> n < length bs \<and> bs ! n"
  by (auto simp add: byte_of_bits_def bit_horner_sum_bit_word_iff)

lemma byte_read_fst: "fst (u1wire_byte_read s) = byte_of_bits (next_levels s 8)"
proof (rule bit_word_eqI)
  fix n assume "n < LENGTH(8)"
  then have n: "n < 8" by simp
  with byte_read_loop_inv [of 0 8 0 s]
  show "bit (fst (u1wire_byte_read s)) n = bit (byte_of_bits (next_levels s 8)) n"
    by (simp add: byte_of_bits_bit next_levels_def u1wire_byte_read_def)
qed

lemma byte_of_bits_map_bit: "byte_of_bits (map (bit v) [0..<8] @ bs) = v"
  by (rule bit_word_eqI) (auto simp add: byte_of_bits_bit nth_append)


lemma byte_write_emitted: "emitted s (u1wire_byte_write v s) = byte_write_events v"
  by (simp add: emitted_def byte_write_eq)

lemma byte_write_written_bits:
  "written_bits (emitted s (u1wire_byte_write v s)) = map (bit v) [0..<8]"
  using written_bits_byte_write [of v "[]"] by (simp add: byte_write_emitted)

lemma byte_write_level: "level (u1wire_byte_write v s) = level s"
  by (simp add: byte_write_eq)

lemma byte_write_tests: "tests (u1wire_byte_write v s) = tests s"
  by (simp add: byte_write_eq)

lemma bit_write_emitted: "emitted s (u1wire_bit_write v s) = bit_write_events (v \<noteq> 0)"
  by (simp add: emitted_def bit_write_eq)

section \<open>Buffers: what the loops do\<close>

lemma byte_read_trace: "prefix (trace s) (trace (snd (u1wire_bit_read s)))"
  by (simp add: u1wire_bit_read_def prim_defs Let_def)

lemma byte_read_loop_trace:
  "i + j = 8 \<Longrightarrow> prefix (trace s) (trace (snd (u1wire_byte_read_loop i v s)))"
proof (induction j arbitrary: i v s)
  case 0
  then show ?case by (simp add: byte_read_loop_done)
next
  case (Suc j)
  then have i: "i < 8" and ij: "(i + 1) + j = 8" by simp_all
  have "prefix (trace s) (trace (snd (u1wire_bit_read s)))"
    by (rule byte_read_trace)
  also have "prefix \<dots> (trace (snd (u1wire_byte_read_loop i v s)))"
    unfolding byte_read_loop_step [OF i] by (rule Suc.IH [OF ij])
  finally show ?case .
qed

lemma byte_read_prefix: "prefix (trace s) (trace (snd (u1wire_byte_read s)))"
  unfolding u1wire_byte_read_def by (rule byte_read_loop_trace [of 0 8]) simp

lemma byte_read_fst_level_byte: "fst (u1wire_byte_read s) = level_byte s 0"
  by (simp add: byte_read_fst level_byte_def next_levels_def)

lemma level_byte_shift:
  "level s' = level s \<Longrightarrow> tests s' = tests s + 8 \<Longrightarrow> level_byte s' k = level_byte s (Suc k)"
  by (simp add: level_byte_def add.assoc)

lemma read_loop_step:
  "i < sz \<Longrightarrow> u1wire_read_loop i sz b m s =
     u1wire_read_loop (i + 1) sz (b + 1) (m(b := fst (u1wire_byte_read s))) (snd (u1wire_byte_read s))"
  by (subst u1wire_read_loop.simps) (simp add: split_beta)

lemma read_loop_done: "\<not> i < sz \<Longrightarrow> u1wire_read_loop i sz b m s = (i, m, s)"
  by (subst u1wire_read_loop.simps) simp

lemma u8_steps: "(i :: 8 word) < sz \<Longrightarrow> unat sz - unat i = Suc (unat sz - unat (i + 1))"
  by (simp add: u8_unat_Suc word_less_nat_alt Suc_diff_Suc)

lemma read_loop_props:
  "i \<le> sz \<Longrightarrow>
     fst (u1wire_read_loop i sz b m s) = sz \<and>
     level (snd (snd (u1wire_read_loop i sz b m s))) = level s \<and>
     tests (snd (snd (u1wire_read_loop i sz b m s))) = tests s + 8 * (unat sz - unat i) \<and>
     prefix (trace s) (trace (snd (snd (u1wire_read_loop i sz b m s)))) \<and>
     (\<forall>a. fst (snd (u1wire_read_loop i sz b m s)) a =
        (if b \<le> a \<and> a < b + (unat sz - unat i) then level_byte s (a - b) else m a))"
proof (induction i sz b m s rule: u1wire_read_loop.induct)
  case (1 i sz b m s)
  show ?case
  proof (cases "i < sz")
    case False
    with "1.prems" have "i = sz" by simp
    then show ?thesis by (auto simp add: read_loop_done)
  next
    case True
    define m' where "m' = m(b := fst (u1wire_byte_read s))"
    define s' where "s' = snd (u1wire_byte_read s)"
    define r where "r = u1wire_read_loop (i + 1) sz (b + 1) m' s'"
    define k where "k = unat sz - unat (i + 1)"
    have step: "u1wire_read_loop i sz b m s = r"
      unfolding r_def m'_def s'_def using True by (rule read_loop_step)
    have le: "i + 1 \<le> sz" using True by (rule inc_le)
    have n: "unat sz - unat i = Suc k" unfolding k_def using True by (rule u8_steps)
    have s': "level s' = level s" "tests s' = tests s + 8" "prefix (trace s) (trace s')"
      by (simp_all add: s'_def byte_read_level byte_read_tests byte_read_prefix)
    have pair: "(fst (u1wire_byte_read s), s') = u1wire_byte_read s"
      by (simp add: s'_def)
    have IH: "fst r = sz \<and> level (snd (snd r)) = level s' \<and>
       tests (snd (snd r)) = tests s' + 8 * k \<and>
       prefix (trace s') (trace (snd (snd r))) \<and>
       (\<forall>a. fst (snd r) a =
          (if b + 1 \<le> a \<and> a < b + 1 + k then level_byte s' (a - (b + 1)) else m' a))"
      unfolding r_def m'_def k_def
      by (rule "1.IH" [OF True refl pair le])
    then have ih_mem: "fst (snd r) a =
        (if b + 1 \<le> a \<and> a < b + 1 + k then level_byte s' (a - (b + 1)) else m' a)" for a
      by blast
    have m'_b: "m' b = level_byte s 0"
      by (simp add: m'_def byte_read_fst_level_byte)
    have m'_other: "a \<noteq> b \<Longrightarrow> m' a = m a" for a
      by (simp add: m'_def)
    have mem: "fst (snd r) a =
        (if b \<le> a \<and> a < b + Suc k then level_byte s (a - b) else m a)" for a
    proof -
      consider "a = b" | "b < a" "a < b + Suc k" | "a < b" | "b + Suc k \<le> a"
        by linarith
      then show ?thesis
      proof cases
        case 1
        then show ?thesis by (simp add: ih_mem m'_b)
      next
        case 2
        then have "a - b = Suc (a - (b + 1))" by simp
        with 2 show ?thesis by (simp add: ih_mem level_byte_shift [OF s'(1,2)])
      next
        case 3
        then show ?thesis by (simp add: ih_mem m'_other)
      next
        case 4
        then show ?thesis by (simp add: ih_mem m'_other)
      qed
    qed
    have "prefix (trace s) (trace (snd (snd r)))"
      using s'(3) IH by (blast intro: prefix_order.trans)
    with IH mem show ?thesis
      unfolding step n by (simp add: s')
  qed
qed

lemma write_loop_step:
  "i < sz \<Longrightarrow> u1wire_write_loop i sz b m s =
     u1wire_write_loop (i + 1) sz (b + 1) m (u1wire_byte_write (m b) s)"
  by (subst u1wire_write_loop.simps) simp

lemma write_loop_done: "\<not> i < sz \<Longrightarrow> u1wire_write_loop i sz b m s = (i, s)"
  by (subst u1wire_write_loop.simps) simp

lemma upt_shift_concat:
  "f 0 @ concat (map (\<lambda>k. f (Suc k)) [0..<n]) = concat (map f [0..<Suc n])"
proof -
  have "[0..<Suc n] = 0 # map Suc [0..<n]"
    by (simp add: upt_conv_Cons map_Suc_upt del: upt_Suc)
  then show ?thesis by (simp add: comp_def del: upt_Suc)
qed

lemma write_loop_props:
  "i \<le> sz \<Longrightarrow>
     fst (u1wire_write_loop i sz b m s) = sz \<and>
     level (snd (u1wire_write_loop i sz b m s)) = level s \<and>
     tests (snd (u1wire_write_loop i sz b m s)) = tests s \<and>
     trace (snd (u1wire_write_loop i sz b m s)) =
       trace s @ concat (map (\<lambda>k. byte_write_events (m (b + k))) [0..<unat sz - unat i])"
proof (induction i sz b m s rule: u1wire_write_loop.induct)
  case (1 i sz b m s)
  show ?case
  proof (cases "i < sz")
    case False
    with "1.prems" have "i = sz" by simp
    then show ?thesis by (simp add: write_loop_done)
  next
    case True
    define s' where "s' = u1wire_byte_write (m b) s"
    define r where "r = u1wire_write_loop (i + 1) sz (b + 1) m s'"
    have step: "u1wire_write_loop i sz b m s = r"
      unfolding r_def s'_def using True by (rule write_loop_step)
    have le: "i + 1 \<le> sz" using True by (rule inc_le)
    define k where "k = unat sz - unat (i + 1)"
    have n: "unat sz - unat i = Suc k" unfolding k_def using True by (rule u8_steps)
    have s': "level s' = level s" "tests s' = tests s"
      "trace s' = trace s @ byte_write_events (m b)"
      by (simp_all add: s'_def byte_write_eq)
    have IH: "fst r = sz \<and> level (snd r) = level s' \<and> tests (snd r) = tests s' \<and>
       trace (snd r) =
         trace s' @ concat (map (\<lambda>j. byte_write_events (m (b + 1 + j))) [0..<k])"
      unfolding r_def s'_def k_def by (rule "1.IH" [OF True le])
    have "trace (snd r) = trace s @ concat (map (\<lambda>j. byte_write_events (m (b + j))) [0..<Suc k])"
      using IH upt_shift_concat [of "\<lambda>j. byte_write_events (m (b + j))" k]
      by (simp add: s' del: upt_Suc)
    with IH show ?thesis unfolding step n by (simp add: s' del: upt_Suc)
  qed
qed


lemma u1wire_read_props:
  "fst (u1wire_read data sz m s) = sint sz \<and>
   level (snd (snd (u1wire_read data sz m s))) = level s \<and>
   tests (snd (snd (u1wire_read data sz m s))) = tests s + 8 * unat sz \<and>
   prefix (trace s) (trace (snd (snd (u1wire_read data sz m s)))) \<and>
   (\<forall>a. fst (snd (u1wire_read data sz m s)) a =
      (if data \<le> a \<and> a < data + unat sz then level_byte s (a - data) else m a))"
  using read_loop_props [of 0 sz data m s]
  by (simp add: u1wire_read_def split_beta)

lemma u1wire_write_props:
  "fst (u1wire_write data sz m s) = sint sz \<and>
   level (snd (u1wire_write data sz m s)) = level s \<and>
   tests (snd (u1wire_write data sz m s)) = tests s \<and>
   trace (snd (u1wire_write data sz m s)) =
     trace s @ concat (map (\<lambda>k. byte_write_events (m (data + k))) [0..<unat sz])"
  using write_loop_props [of 0 sz data m s]
  by (simp add: u1wire_write_def split_beta)

lemma written_bits_bytes:
  "written_bits (concat (map (\<lambda>k. byte_write_events (f k)) ks) @ es) =
     concat (map (\<lambda>k. map (bit (f k)) [0..<8]) ks) @ written_bits es"
  by (induction ks) (simp_all add: written_bits_byte_write del: upt_Suc)

lemma u1wire_write_written_bits:
  "written_bits (emitted s (snd (u1wire_write data sz m s))) =
     concat (map (\<lambda>k. map (bit (m (data + k))) [0..<8]) [0..<unat sz])"
  using written_bits_bytes [of "\<lambda>k. m (data + k)" "[0..<unat sz]" "[]"]
  by (simp add: emitted_def u1wire_write_props)

lemma length_concat_bytes: "length (concat (map (\<lambda>k. map (g k) [0..<8]) ks)) = 8 * length ks"
  by (induction ks) simp_all

section \<open>Bus reset: the seven returns\<close>

lemma plus_Sucs:
  "n + 3 = Suc (Suc (Suc n))" "n + 4 = Suc (Suc (Suc (Suc n)))"
  "n + 5 = Suc (Suc (Suc (Suc (Suc n))))" "n + 6 = Suc (Suc (Suc (Suc (Suc (Suc n)))))"
  by simp_all

lemma reset_bus_low:
  "\<not> level s (tests s) \<Longrightarrow>
   u1wire_reset E s = (- U1WIRE_ERR_BUS_LOW E,
     s\<lparr>pio := PIO_CONFIG_PULLUP, tests := tests s + 1,
       trace := trace s @ [Release, Delay 5, Test False]\<rparr>)"
  by (simp add: u1wire_reset_def prim_defs Let_def plus_Sucs)

lemma reset_bus_high:
  "level s (tests s) \<Longrightarrow> level s (tests s + 1) \<Longrightarrow>
   u1wire_reset E s = (- U1WIRE_ERR_BUS_HIGH E,
     s\<lparr>pio := PIO_CONFIG_PULLUP, irq := True, tests := tests s + 2,
       trace := trace s @ [Release, Delay 5, Test True, Irq_disable, Drive, Delay 250, Test True,
         Release, Irq_enable]\<rparr>)"
  by (simp add: u1wire_reset_def prim_defs Let_def plus_Sucs)

lemma reset_bus_stuck:
  "level s (tests s) \<Longrightarrow> \<not> level s (tests s + 1) \<Longrightarrow> \<not> level s (tests s + 2) \<Longrightarrow>
   u1wire_reset E s = (- U1WIRE_ERR_BUS_STUCK E,
     s\<lparr>pio := PIO_CONFIG_PULLUP, irq := True, tests := tests s + 3,
       trace := trace s @ [Release, Delay 5, Test True, Irq_disable, Drive, Delay 250, Test False,
         Delay 250, Release, Delay 10, Test False, Irq_enable]\<rparr>)"
  by (simp add: u1wire_reset_def prim_defs Let_def plus_Sucs)

lemma reset_no_device:
  "level s (tests s) \<Longrightarrow> \<not> level s (tests s + 1) \<Longrightarrow> level s (tests s + 2) \<Longrightarrow>
   level s (tests s + 3) \<Longrightarrow>
   u1wire_reset E s = (0,
     s\<lparr>pio := PIO_CONFIG_PULLUP, irq := True, tests := tests s + 4,
       trace := trace s @ [Release, Delay 5, Test True, Irq_disable, Drive, Delay 250, Test False,
         Delay 250, Release, Delay 10, Test True, Delay 60, Test True, Irq_enable]\<rparr>)"
  by (simp add: u1wire_reset_def prim_defs Let_def plus_Sucs)

lemma reset_presence_short:
  "level s (tests s) \<Longrightarrow> \<not> level s (tests s + 1) \<Longrightarrow> level s (tests s + 2) \<Longrightarrow>
   \<not> level s (tests s + 3) \<Longrightarrow> level s (tests s + 4) \<Longrightarrow>
   u1wire_reset E s = (- U1WIRE_ERR_PRESENCE_SHORT E,
     s\<lparr>pio := PIO_CONFIG_PULLUP, irq := True, tests := tests s + 5,
       trace := trace s @ [Release, Delay 5, Test True, Irq_disable, Drive, Delay 250, Test False,
         Delay 250, Release, Delay 10, Test True, Delay 60, Test False, Delay 10, Test True,
         Irq_enable]\<rparr>)"
  by (simp add: u1wire_reset_def prim_defs Let_def plus_Sucs)

lemma reset_presence_long:
  "level s (tests s) \<Longrightarrow> \<not> level s (tests s + 1) \<Longrightarrow> level s (tests s + 2) \<Longrightarrow>
   \<not> level s (tests s + 3) \<Longrightarrow> \<not> level s (tests s + 4) \<Longrightarrow> \<not> level s (tests s + 5) \<Longrightarrow>
   u1wire_reset E s = (- U1WIRE_ERR_PRESENCE_LONG E,
     s\<lparr>pio := PIO_CONFIG_PULLUP, irq := True, tests := tests s + 6,
       trace := trace s @ [Release, Delay 5, Test True, Irq_disable, Drive, Delay 250, Test False,
         Delay 250, Release, Delay 10, Test True, Delay 60, Test False, Delay 10, Test False,
         Delay 240, Test False, Irq_enable]\<rparr>)"
  by (simp add: u1wire_reset_def prim_defs Let_def plus_Sucs)

lemma reset_ok:
  "level s (tests s) \<Longrightarrow> \<not> level s (tests s + 1) \<Longrightarrow> level s (tests s + 2) \<Longrightarrow>
   \<not> level s (tests s + 3) \<Longrightarrow> \<not> level s (tests s + 4) \<Longrightarrow> level s (tests s + 5) \<Longrightarrow>
   u1wire_reset E s = (1,
     s\<lparr>pio := PIO_CONFIG_PULLUP, irq := True, tests := tests s + 6,
       trace := trace s @ [Release, Delay 5, Test True, Irq_disable, Drive, Delay 250, Test False,
         Delay 250, Release, Delay 10, Test True, Delay 60, Test False, Delay 10, Test False,
         Delay 240, Test True, Delay 240, Irq_enable]\<rparr>)"
  by (simp add: u1wire_reset_def prim_defs Let_def plus_Sucs)

text \<open>The seven ways through the reset, by the levels sampled.\<close>

lemma reset_paths:
  obtains
    (bus_low) "\<not> level s (tests s)"
  | (bus_high) "level s (tests s)" "level s (tests s + 1)"
  | (bus_stuck) "level s (tests s)" "\<not> level s (tests s + 1)" "\<not> level s (tests s + 2)"
  | (no_device) "level s (tests s)" "\<not> level s (tests s + 1)" "level s (tests s + 2)"
      "level s (tests s + 3)"
  | (presence_short) "level s (tests s)" "\<not> level s (tests s + 1)" "level s (tests s + 2)"
      "\<not> level s (tests s + 3)" "level s (tests s + 4)"
  | (presence_long) "level s (tests s)" "\<not> level s (tests s + 1)" "level s (tests s + 2)"
      "\<not> level s (tests s + 3)" "\<not> level s (tests s + 4)" "\<not> level s (tests s + 5)"
  | (ok) "level s (tests s)" "\<not> level s (tests s + 1)" "level s (tests s + 2)"
      "\<not> level s (tests s + 3)" "\<not> level s (tests s + 4)" "level s (tests s + 5)"
  by blast

lemma errs_ok_facts:
  assumes "u1wire_errs_ok E"
  shows "0 < U1WIRE_ERR_BUS_LOW E" "0 < U1WIRE_ERR_BUS_HIGH E" "0 < U1WIRE_ERR_BUS_STUCK E"
    "0 < U1WIRE_ERR_PRESENCE_SHORT E" "0 < U1WIRE_ERR_PRESENCE_LONG E"
    "distinct [U1WIRE_ERR_BUS_LOW E, U1WIRE_ERR_BUS_HIGH E, U1WIRE_ERR_BUS_STUCK E,
       U1WIRE_ERR_PRESENCE_SHORT E, U1WIRE_ERR_PRESENCE_LONG E]"
  using assms by (simp_all add: u1wire_errs_ok_def u1wire_errs_list_def)

section \<open>Bus reset: classification of the returns\<close>

text \<open>
  The samples of a reset are told apart by the time at which they are taken, counted from
  the start of the call: 5 (the check after the first release), 255 (after the line has
  been driven for 250), 515 (10 after the release that ends the reset pulse), 575 (60
  later, the end of the response window), 585 (10 later) and 825 (a further 240 later).
\<close>

text \<open>
  C6. Provided the error constants are positive and distinct, \<^verbatim>\<open>u1wire_reset\<close> returns
  \<^verbatim>\<open>-U1WIRE_ERR_BUS_LOW\<close> exactly when the sample taken 5 microseconds after the first
  release is low, and on that return the call has neither disabled interrupts nor driven
  the line; it returns \<^verbatim>\<open>-U1WIRE_ERR_BUS_HIGH\<close> exactly when the sample taken after the
  line has been driven for 250 microseconds is high.
\<close>

theorem u1wire_reset_bus_stuck_faults:
  assumes "u1wire_errs_ok E"
  shows "(fst (u1wire_reset E s) = - U1WIRE_ERR_BUS_LOW E \<longleftrightarrow>
            sampled_at 5 (emitted s (snd (u1wire_reset E s))) = Some False) \<and>
         (fst (u1wire_reset E s) = - U1WIRE_ERR_BUS_LOW E \<longrightarrow>
            Irq_disable \<notin> set (emitted s (snd (u1wire_reset E s))) \<and>
            Drive \<notin> set (emitted s (snd (u1wire_reset E s)))) \<and>
         (fst (u1wire_reset E s) = - U1WIRE_ERR_BUS_HIGH E \<longleftrightarrow>
            sampled_at 255 (emitted s (snd (u1wire_reset E s))) = Some True)"
proof -
  note E = errs_ok_facts [OF assms]
  show ?thesis
  proof (cases s rule: reset_paths)
    case bus_low
    then show ?thesis using E by (auto simp add: reset_bus_low emitted_def)
  next
    case bus_high
    then show ?thesis using E by (auto simp add: reset_bus_high emitted_def)
  next
    case bus_stuck
    then show ?thesis using E by (auto simp add: reset_bus_stuck emitted_def)
  next
    case no_device
    then show ?thesis using E by (auto simp add: reset_no_device emitted_def)
  next
    case presence_short
    then show ?thesis using E by (auto simp add: reset_presence_short emitted_def)
  next
    case presence_long
    then show ?thesis using E by (auto simp add: reset_presence_long emitted_def)
  next
    case ok
    then show ?thesis using E by (auto simp add: reset_ok emitted_def)
  qed
qed

theorem u1wire_reset_bus_stuck_faults_witness:
  "u1wire_errs_ok example_errs \<and>
   fst (u1wire_reset example_errs (idle_bus True [False])) = - U1WIRE_ERR_BUS_LOW example_errs \<and>
   sampled_at 5 (emitted (idle_bus True [False])
     (snd (u1wire_reset example_errs (idle_bus True [False])))) = Some False \<and>
   Irq_disable \<notin> set (emitted (idle_bus True [False])
     (snd (u1wire_reset example_errs (idle_bus True [False])))) \<and>
   Drive \<notin> set (emitted (idle_bus True [False])
     (snd (u1wire_reset example_errs (idle_bus True [False])))) \<and>
   fst (u1wire_reset example_errs (idle_bus True [True, True])) = - U1WIRE_ERR_BUS_HIGH example_errs \<and>
   sampled_at 255 (emitted (idle_bus True [True, True])
     (snd (u1wire_reset example_errs (idle_bus True [True, True])))) = Some True"
proof -
  have ok: "u1wire_errs_ok example_errs"
    by (simp add: u1wire_errs_ok_def u1wire_errs_list_def example_errs_def)
  have low: "fst (u1wire_reset example_errs (idle_bus True [False])) =
      - U1WIRE_ERR_BUS_LOW example_errs"
    by (simp add: reset_bus_low idle_bus_def levels_of_def)
  have high: "fst (u1wire_reset example_errs (idle_bus True [True, True])) =
      - U1WIRE_ERR_BUS_HIGH example_errs"
    by (simp add: reset_bus_high idle_bus_def levels_of_def)
  from ok low high
    u1wire_reset_bus_stuck_faults [OF ok, of "idle_bus True [False]"]
    u1wire_reset_bus_stuck_faults [OF ok, of "idle_bus True [True, True]"]
  show ?thesis by simp
qed

text \<open>
  C5. Provided the error constants are positive and distinct, \<^verbatim>\<open>u1wire_reset\<close> returns
  \<^verbatim>\<open>-U1WIRE_ERR_PRESENCE_SHORT\<close> exactly when the sample at the end of the response window
  is low and the sample 10 microseconds later is high, and \<^verbatim>\<open>-U1WIRE_ERR_PRESENCE_LONG\<close>
  exactly when the sample a further 240 microseconds later is low; the two returns differ.
\<close>

theorem u1wire_reset_presence_faults:
  assumes "u1wire_errs_ok E"
  shows "(fst (u1wire_reset E s) = - U1WIRE_ERR_PRESENCE_SHORT E \<longleftrightarrow>
            sampled_at 575 (emitted s (snd (u1wire_reset E s))) = Some False \<and>
            sampled_at 585 (emitted s (snd (u1wire_reset E s))) = Some True) \<and>
         (fst (u1wire_reset E s) = - U1WIRE_ERR_PRESENCE_LONG E \<longleftrightarrow>
            sampled_at 825 (emitted s (snd (u1wire_reset E s))) = Some False) \<and>
         - U1WIRE_ERR_PRESENCE_SHORT E \<noteq> - U1WIRE_ERR_PRESENCE_LONG E"
proof -
  note E = errs_ok_facts [OF assms]
  show ?thesis
  proof (cases s rule: reset_paths)
    case bus_low
    then show ?thesis using E by (auto simp add: reset_bus_low emitted_def)
  next
    case bus_high
    then show ?thesis using E by (auto simp add: reset_bus_high emitted_def)
  next
    case bus_stuck
    then show ?thesis using E by (auto simp add: reset_bus_stuck emitted_def)
  next
    case no_device
    then show ?thesis using E by (auto simp add: reset_no_device emitted_def)
  next
    case presence_short
    then show ?thesis using E by (auto simp add: reset_presence_short emitted_def)
  next
    case presence_long
    then show ?thesis using E by (auto simp add: reset_presence_long emitted_def)
  next
    case ok
    then show ?thesis using E by (auto simp add: reset_ok emitted_def)
  qed
qed

theorem u1wire_reset_presence_faults_witness:
  "u1wire_errs_ok example_errs \<and>
   fst (u1wire_reset example_errs (idle_bus True [True, False, True, False, True])) =
     - U1WIRE_ERR_PRESENCE_SHORT example_errs \<and>
   sampled_at 575 (emitted (idle_bus True [True, False, True, False, True])
     (snd (u1wire_reset example_errs (idle_bus True [True, False, True, False, True])))) = Some False \<and>
   sampled_at 585 (emitted (idle_bus True [True, False, True, False, True])
     (snd (u1wire_reset example_errs (idle_bus True [True, False, True, False, True])))) = Some True \<and>
   fst (u1wire_reset example_errs (idle_bus True [True, False, True, False, False, False])) =
     - U1WIRE_ERR_PRESENCE_LONG example_errs \<and>
   sampled_at 825 (emitted (idle_bus True [True, False, True, False, False, False])
     (snd (u1wire_reset example_errs (idle_bus True [True, False, True, False, False, False])))) =
     Some False"
proof -
  have ok: "u1wire_errs_ok example_errs"
    by (simp add: u1wire_errs_ok_def u1wire_errs_list_def example_errs_def)
  have short: "fst (u1wire_reset example_errs (idle_bus True [True, False, True, False, True])) =
      - U1WIRE_ERR_PRESENCE_SHORT example_errs"
    by (simp add: reset_presence_short idle_bus_def levels_of_def)
  have long: "fst (u1wire_reset example_errs (idle_bus True [True, False, True, False, False, False])) =
      - U1WIRE_ERR_PRESENCE_LONG example_errs"
    by (simp add: reset_presence_long idle_bus_def levels_of_def)
  from ok short long
    u1wire_reset_presence_faults [OF ok, of "idle_bus True [True, False, True, False, True]"]
    u1wire_reset_presence_faults [OF ok, of "idle_bus True [True, False, True, False, False, False]"]
  show ?thesis by simp
qed

text \<open>
  C4. When the line is high at the first check, low while driven, high again 10
  microseconds after the release and still high at the end of the response window,
  \<^verbatim>\<open>u1wire_reset\<close> returns 0, which is none of the fault returns when the error constants
  are positive and distinct.
\<close>

theorem u1wire_reset_no_device:
  assumes "level s (tests s)" and "\<not> level s (tests s + 1)"
    and "level s (tests s + 2)" and "level s (tests s + 3)"
  shows "fst (u1wire_reset E s) = 0 \<and>
         (u1wire_errs_ok E \<longrightarrow> fst (u1wire_reset E s) \<notin> uminus ` set (u1wire_errs_list E))"
  using assms
  by (auto simp add: reset_no_device u1wire_errs_ok_def u1wire_errs_list_def)

theorem u1wire_reset_no_device_witness:
  "level (idle_bus True [True, False, True, True]) (tests (idle_bus True [True, False, True, True])) \<and>
   \<not> level (idle_bus True [True, False, True, True]) (tests (idle_bus True [True, False, True, True]) + 1) \<and>
   level (idle_bus True [True, False, True, True]) (tests (idle_bus True [True, False, True, True]) + 2) \<and>
   level (idle_bus True [True, False, True, True]) (tests (idle_bus True [True, False, True, True]) + 3) \<and>
   u1wire_errs_ok example_errs \<and>
   fst (u1wire_reset example_errs (idle_bus True [True, False, True, True])) = 0 \<and>
   fst (u1wire_reset example_errs (idle_bus True [True, False, True, True])) \<notin>
     uminus ` set (u1wire_errs_list example_errs)"
proof -
  let ?s = "idle_bus True [True, False, True, True]"
  have ok: "u1wire_errs_ok example_errs"
    by (simp add: u1wire_errs_ok_def u1wire_errs_list_def example_errs_def)
  have h: "level ?s (tests ?s)" "\<not> level ?s (tests ?s + 1)" "level ?s (tests ?s + 2)"
    "level ?s (tests ?s + 3)"
    by (simp_all add: idle_bus_def levels_of_def)
  from ok h u1wire_reset_no_device [OF h, of example_errs] show ?thesis by blast
qed

section \<open>Bus reset: line and interrupts on return\<close>

text \<open>
  C2, as the code has it. On every return of \<^verbatim>\<open>u1wire_reset\<close> the line is released and
  the call has enabled interrupts as often as it has disabled them. Interrupts are enabled
  on return when they were enabled on entry; when they were disabled on entry they stay
  disabled only on the \<^verbatim>\<open>-U1WIRE_ERR_BUS_LOW\<close> return (first sample low), where the mask is
  never touched, and are enabled on every other return.
\<close>

theorem u1wire_reset_leaves_line_released:
  "pio (snd (u1wire_reset E s)) = PIO_CONFIG_PULLUP \<and>
   irq (snd (u1wire_reset E s)) = (irq s \<or> level s (tests s)) \<and>
   count_list (emitted s (snd (u1wire_reset E s))) Irq_disable =
     count_list (emitted s (snd (u1wire_reset E s))) Irq_enable"
proof (cases s rule: reset_paths)
  case bus_low
  then show ?thesis by (simp add: reset_bus_low emitted_def)
next
  case bus_high
  then show ?thesis by (simp add: reset_bus_high emitted_def)
next
  case bus_stuck
  then show ?thesis by (simp add: reset_bus_stuck emitted_def)
next
  case no_device
  then show ?thesis by (simp add: reset_no_device emitted_def)
next
  case presence_short
  then show ?thesis by (simp add: reset_presence_short emitted_def)
next
  case presence_long
  then show ?thesis by (simp add: reset_presence_long emitted_def)
next
  case ok
  then show ?thesis by (simp add: reset_ok emitted_def)
qed

text \<open>
  C2 as stated asks for interrupts to be enabled on return exactly when they were enabled
  on entry. A reset that succeeds on a bus entered with interrupts disabled returns with
  interrupts enabled.
\<close>

theorem u1wire_reset_irq_counterexample:
  "fst (u1wire_reset example_errs (idle_bus False [True, False, True, False, False, True])) = 1 \<and>
   \<not> irq (idle_bus False [True, False, True, False, False, True]) \<and>
   irq (snd (u1wire_reset example_errs (idle_bus False [True, False, True, False, False, True])))"
  by (simp add: reset_ok idle_bus_def levels_of_def)

section \<open>Byte round trip\<close>

text \<open>
  C1. Write any byte \<open>v\<close> with \<^verbatim>\<open>u1wire_byte_write\<close>, and let the line then return, to the
  next eight samples, the eight bits that a device took from the write slots, in the same
  order (a loopback). Then \<^verbatim>\<open>u1wire_byte_read\<close> returns \<open>v\<close>: both directions move the
  least significant bit first.
\<close>

theorem u1wire_byte_loopback:
  assumes "next_levels (u1wire_byte_write v s) 8 =
             written_bits (emitted s (u1wire_byte_write v s))"
  shows "fst (u1wire_byte_read (u1wire_byte_write v s)) = v"
proof -
  have "fst (u1wire_byte_read (u1wire_byte_write v s)) =
          byte_of_bits (next_levels (u1wire_byte_write v s) 8)"
    by (rule byte_read_fst)
  also have "\<dots> = byte_of_bits (map (bit v) [0..<8] @ [])"
    by (simp add: assms byte_write_written_bits)
  also have "\<dots> = v"
    by (rule byte_of_bits_map_bit)
  finally show ?thesis .
qed

theorem u1wire_byte_loopback_witness:
  "next_levels (u1wire_byte_write 0xA5
       (idle_bus True [True, False, True, False, False, True, False, True])) 8 =
     written_bits (emitted (idle_bus True [True, False, True, False, False, True, False, True])
       (u1wire_byte_write 0xA5
         (idle_bus True [True, False, True, False, False, True, False, True]))) \<and>
   fst (u1wire_byte_read (u1wire_byte_write 0xA5
       (idle_bus True [True, False, True, False, False, True, False, True]))) = 0xA5"
proof -
  let ?s = "idle_bus True [True, False, True, False, False, True, False, True]"
  have h: "next_levels (u1wire_byte_write 0xA5 ?s) 8 =
     written_bits (emitted ?s (u1wire_byte_write 0xA5 ?s))"
    by (simp add: byte_write_written_bits next_levels_def byte_write_level byte_write_tests upt8)
      (simp add: idle_bus_def levels_of_def)
  from h u1wire_byte_loopback [OF h] show ?thesis by simp
qed

section \<open>Low time of a write slot\<close>

text \<open>
  C9. Within the events of one call of \<^verbatim>\<open>u1wire_bit_write\<close>, with time the sum of the
  delay arguments, the line is driven low for less time when the value is nonzero (it is
  released early) than when it is 0, and in both cases for at most 60 microseconds.
\<close>

theorem u1wire_bit_write_low_time:
  assumes "v \<noteq> 0"
  shows "low_time (pio s) (emitted s (u1wire_bit_write v s)) <
           low_time (pio s) (emitted s (u1wire_bit_write 0 s)) \<and>
         low_time (pio s) (emitted s (u1wire_bit_write v s)) \<le> 60 \<and>
         low_time (pio s) (emitted s (u1wire_bit_write 0 s)) \<le> 60"
  using assms by (simp add: bit_write_emitted bit_write_events_def)

theorem u1wire_bit_write_low_time_witness:
  "(1 :: 8 word) \<noteq> 0 \<and>
   low_time (pio (idle_bus True []))
       (emitted (idle_bus True []) (u1wire_bit_write 1 (idle_bus True []))) <
     low_time (pio (idle_bus True []))
       (emitted (idle_bus True []) (u1wire_bit_write 0 (idle_bus True []))) \<and>
   low_time (pio (idle_bus True []))
       (emitted (idle_bus True []) (u1wire_bit_write 1 (idle_bus True []))) \<le> 60 \<and>
   low_time (pio (idle_bus True []))
       (emitted (idle_bus True []) (u1wire_bit_write 0 (idle_bus True []))) \<le> 60"
  using u1wire_bit_write_low_time [of 1 "idle_bus True []"] by simp

text \<open>The two durations themselves: 4 microseconds for a 1 and 58 for a 0.\<close>

lemma bit_write_low_time_values:
  "low_time (pio s) (emitted s (u1wire_bit_write 1 s)) = 4"
  "low_time (pio s) (emitted s (u1wire_bit_write 0 s)) = 58"
  by (simp_all add: bit_write_emitted bit_write_events_def)

section \<open>Buffers of size 0\<close>

text \<open>
  C10. \<^verbatim>\<open>u1wire_read\<close> with size 0 returns 0 and leaves both the memory and the bus state
  as they were, so it moves no bit and stores nothing through \<^verbatim>\<open>data\<close>; \<^verbatim>\<open>u1wire_write\<close>
  with size 0 returns 0 and leaves the bus state as it was.
\<close>

theorem u1wire_read_write_size_0:
  "u1wire_read data 0 m s = (0, m, s) \<and> u1wire_write data 0 m s = (0, s)"
  by (simp add: u1wire_read_def u1wire_write_def u1wire_read_loop.simps u1wire_write_loop.simps)

section \<open>Buffers of 128 bytes and more\<close>

text \<open>
  C8, at size 200. \<^verbatim>\<open>u1wire_read\<close> takes the 1600 samples of 200 bytes and
  \<^verbatim>\<open>u1wire_write\<close> writes the 1600 bits of 200 bytes, but each returns -56: the count
  comes back through \<^verbatim>\<open>int8_t\<close>, which holds no value above 127.
\<close>

theorem u1wire_read_write_size_200:
  "fst (u1wire_read data 200 m s) = - 56 \<and>
   tests (snd (snd (u1wire_read data 200 m s))) = tests s + 8 * 200 \<and>
   fst (u1wire_write data 200 m s) = - 56 \<and>
   length (written_bits (emitted s (snd (u1wire_write data 200 m s)))) = 8 * 200"
  using u1wire_read_props [of data 200 m s] u1wire_write_props [of data 200 m s]
  by (simp add: u1wire_write_written_bits length_concat_bytes)

text \<open>For every size, both calls return the size read as a signed byte.\<close>

lemma u1wire_read_write_ret:
  "fst (u1wire_read data sz m s) = sint sz" "fst (u1wire_write data sz m s) = sint sz"
  by (simp_all add: u1wire_read_props u1wire_write_props)

section \<open>Device protocol: what a call does\<close>

lemma byte_write_prefix: "prefix (trace s) (trace (u1wire_byte_write v s))"
  by (simp add: byte_write_eq)

lemma u1wire_read_prefix: "prefix (trace s) (trace (snd (snd (u1wire_read data sz m s))))"
  by (simp add: u1wire_read_props)

lemma u1wire_write_prefix: "prefix (trace s) (trace (snd (u1wire_write data sz m s)))"
  by (simp add: u1wire_write_props)

lemma rom_code_read_fail:
  "fst (u1wire_reset E s) \<noteq> 1 \<Longrightarrow>
   u1wire_rom_code_read E dev m s = (fst (u1wire_reset E s), m, snd (u1wire_reset E s))"
  by (simp add: u1wire_rom_code_read_def split_beta)

lemma rom_code_read_ok:
  "fst (u1wire_reset E s) = 1 \<Longrightarrow>
   u1wire_rom_code_read E dev m s =
     (1, fst (snd (u1wire_read (rom_code dev) sizeof_rom_code m
            (u1wire_byte_write U1WIRE_READ_ROM (snd (u1wire_reset E s))))),
      u1wire_byte_write U1WIRE_RECALL
        (snd (snd (u1wire_read (rom_code dev) sizeof_rom_code m
            (u1wire_byte_write U1WIRE_READ_ROM (snd (u1wire_reset E s)))))))"
  by (simp add: u1wire_rom_code_read_def split_beta Let_def)

lemma command_fail:
  "fst (u1wire_reset E s) \<noteq> 1 \<Longrightarrow>
   u1wire_command E dev c m s = (fst (u1wire_reset E s), snd (u1wire_reset E s))"
  by (simp add: u1wire_command_def split_beta)

lemma command_ok:
  "fst (u1wire_reset E s) = 1 \<Longrightarrow>
   u1wire_command E dev c m s =
     (1, u1wire_byte_write c
        (snd (u1wire_write (rom_code dev) sizeof_rom_code m
            (u1wire_byte_write U1WIRE_MATCH_ROM (snd (u1wire_reset E s))))))"
  by (simp add: u1wire_command_def split_beta Let_def)

lemma broadcast_fail:
  "fst (u1wire_reset E s) \<noteq> 1 \<Longrightarrow>
   u1wire_broadcast E c s = (fst (u1wire_reset E s), snd (u1wire_reset E s))"
  by (simp add: u1wire_broadcast_def split_beta)

lemma broadcast_ok:
  "fst (u1wire_reset E s) = 1 \<Longrightarrow>
   u1wire_broadcast E c s =
     (1, u1wire_byte_write c (u1wire_byte_write U1WIRE_SKIP_ROM (snd (u1wire_reset E s))))"
  by (simp add: u1wire_broadcast_def split_beta Let_def)

lemma bytes_of_bits_short: "length bs < 8 \<Longrightarrow> bytes_of_bits bs = []"
  by (subst bytes_of_bits.simps) simp

lemma bytes_of_bits_byte:
  "bytes_of_bits (map (bit v) [0..<8] @ bs) = v # bytes_of_bits bs"
  by (subst bytes_of_bits.simps) (simp add: byte_of_bits_map_bit del: upt_Suc)

lemma bytes_of_bits_bytes:
  "bytes_of_bits (concat (map (\<lambda>v. map (bit v) [0..<8]) vs)) = vs"
  by (induction vs) (simp_all add: bytes_of_bits_short bytes_of_bits_byte del: upt_Suc)

lemma next_levels_Suc8:
  "next_levels s (8 * Suc n) =
     map (\<lambda>j. level s (tests s + j)) [0..<8] @ next_levels (s\<lparr>tests := tests s + 8\<rparr>) (8 * n)"
proof -
  have "[0..<8 * Suc n] = [0..<8] @ map (\<lambda>j. 8 + j) [0..<8 * n]"
    using upt_add_eq_append [of 0 8 "8 * n"] by (simp add: map_add_upt add.commute del: upt_Suc)
  then show ?thesis by (simp add: next_levels_def comp_def add.assoc del: upt_Suc)
qed

lemma level_byte_cong:
  "level s = level t \<Longrightarrow> tests s = tests t \<Longrightarrow> level_byte s k = level_byte t k"
  by (simp add: level_byte_def)

lemma bytes_of_bits_next_levels:
  "bytes_of_bits (next_levels s (8 * n)) = map (level_byte s) [0..<n]"
proof (induction n arbitrary: s)
  case 0
  then show ?case by (simp add: next_levels_def bytes_of_bits_short)
next
  case (Suc n)
  let ?s = "s\<lparr>tests := tests s + 8\<rparr>"
  have len: "\<not> length (next_levels s (8 * Suc n)) < 8"
    by (simp add: next_levels_def)
  have "bytes_of_bits (next_levels s (8 * Suc n)) =
          byte_of_bits (next_levels s (8 * Suc n)) # bytes_of_bits (drop 8 (next_levels s (8 * Suc n)))"
    using len by (subst bytes_of_bits.simps) simp
  also have "byte_of_bits (next_levels s (8 * Suc n)) = level_byte s 0"
    unfolding next_levels_Suc8 by (simp add: byte_of_bits_def level_byte_def del: upt_Suc)
  also have "drop 8 (next_levels s (8 * Suc n)) = next_levels ?s (8 * n)"
    unfolding next_levels_Suc8 by (simp del: upt_Suc)
  also have "bytes_of_bits (next_levels ?s (8 * n)) = map (level_byte ?s) [0..<n]"
    by (rule Suc.IH)
  also have "map (level_byte ?s) [0..<n] = map (\<lambda>k. level_byte s (Suc k)) [0..<n]"
    by (simp add: level_byte_shift [of ?s s])
  also have "level_byte s 0 # map (\<lambda>k. level_byte s (Suc k)) [0..<n] = map (level_byte s) [0..<Suc n]"
    using upt_shift_concat [of "\<lambda>k. [level_byte s k]" n] by (simp add: comp_def del: upt_Suc)
  finally show ?case .
qed

lemma map_upt_offset: "map f [d..<d + n] = map (\<lambda>k. f (d + k)) [0..<n]"
proof -
  have "[d..<d + n] = map (\<lambda>k. k + d) [0..<n]"
    by (simp add: map_add_upt add.commute)
  then show ?thesis by (simp add: comp_def add.commute)
qed

lemma rom_code_read_ret: "fst (u1wire_rom_code_read E dev m s) = fst (u1wire_reset E s)"
  by (cases "fst (u1wire_reset E s) = 1") (simp_all add: rom_code_read_ok rom_code_read_fail)

lemma command_ret: "fst (u1wire_command E dev c m s) = fst (u1wire_reset E s)"
  by (cases "fst (u1wire_reset E s) = 1") (simp_all add: command_ok command_fail)

lemma reset_level: "level (snd (u1wire_reset E s)) = level s"
  by (cases s rule: reset_paths)
    (simp_all add: reset_bus_low reset_bus_high reset_bus_stuck reset_no_device
      reset_presence_short reset_presence_long reset_ok)

lemma idle_bus_level: "level (idle_bus i bs) = levels_of bs" "tests (idle_bus i bs) = 0"
  by (simp_all add: idle_bus_def)

text \<open>What a successful discovery leaves in memory and in the bus state.\<close>

lemma rom_code_read_ok_props:
  assumes "fst (u1wire_reset E s) = 1"
  shows "map (fst (snd (u1wire_rom_code_read E dev m s))) [rom_code dev..<rom_code dev + 8] =
           bytes_of_bits (next_levels (snd (u1wire_reset E s)) 64)"
    and "level (snd (snd (u1wire_rom_code_read E dev m s))) = level s"
    and "tests (snd (snd (u1wire_rom_code_read E dev m s))) = tests (snd (u1wire_reset E s)) + 64"
proof -
  define s1 where "s1 = snd (u1wire_reset E s)"
  define s2 where "s2 = u1wire_byte_write U1WIRE_READ_ROM s1"
  define r where "r = u1wire_read (rom_code dev) sizeof_rom_code m s2"
  have eq: "u1wire_rom_code_read E dev m s = (1, fst (snd r), u1wire_byte_write U1WIRE_RECALL (snd (snd r)))"
    unfolding r_def s2_def s1_def by (rule rom_code_read_ok [OF assms])
  have s1: "level s1 = level s"
    by (simp add: s1_def reset_level)
  have s2: "level s2 = level s1" "tests s2 = tests s1"
    by (simp_all add: s2_def byte_write_level byte_write_tests)
  have sz: "unat sizeof_rom_code = 8"
    by (simp add: sizeof_rom_code_def)
  note rp = u1wire_read_props [of "rom_code dev" sizeof_rom_code m s2, folded r_def, unfolded sz]
  have mem: "fst (snd r) (rom_code dev + k) = level_byte s1 k" if "k < 8" for k
    using rp that by (simp add: level_byte_cong [OF s2])
  have "map (fst (snd r)) [rom_code dev..<rom_code dev + 8] = map (level_byte s1) [0..<8]"
    unfolding map_upt_offset by (rule map_cong) (simp_all add: mem del: upt_Suc)
  also have "\<dots> = bytes_of_bits (next_levels s1 64)"
    using bytes_of_bits_next_levels [of s1 8] by simp
  finally show "map (fst (snd (u1wire_rom_code_read E dev m s))) [rom_code dev..<rom_code dev + 8] =
           bytes_of_bits (next_levels (snd (u1wire_reset E s)) 64)"
    unfolding eq s1_def by simp
  show "level (snd (snd (u1wire_rom_code_read E dev m s))) = level s"
    unfolding eq using rp by (simp add: byte_write_level s1 s2)
  show "tests (snd (snd (u1wire_rom_code_read E dev m s))) = tests (snd (u1wire_reset E s)) + 64"
    unfolding eq using rp by (simp add: byte_write_tests s2 s1_def)
qed

text \<open>What a successful addressed command writes after its reset.\<close>

lemma command_ok_written:
  assumes "fst (u1wire_reset E s) = 1"
  shows "bytes_of_bits (written_bits (emitted (snd (u1wire_reset E s)) (snd (u1wire_command E dev c m s)))) =
           U1WIRE_MATCH_ROM # map m [rom_code dev..<rom_code dev + 8] @ [c]"
proof -
  define s1 where "s1 = snd (u1wire_reset E s)"
  define s2 where "s2 = u1wire_byte_write U1WIRE_MATCH_ROM s1"
  define s3 where "s3 = snd (u1wire_write (rom_code dev) sizeof_rom_code m s2)"
  define bytes where "bytes = U1WIRE_MATCH_ROM # map m [rom_code dev..<rom_code dev + 8] @ [c]"
  have eq: "snd (u1wire_command E dev c m s) = u1wire_byte_write c s3"
    unfolding s3_def s2_def s1_def by (simp add: command_ok [OF assms])
  have sz: "unat sizeof_rom_code = 8"
    by (simp add: sizeof_rom_code_def)
  have t2: "trace s2 = trace s1 @ byte_write_events U1WIRE_MATCH_ROM"
    by (simp add: s2_def byte_write_eq)
  have t3: "trace s3 = trace s2 @ concat (map (\<lambda>k. byte_write_events (m (rom_code dev + k))) [0..<8])"
    using u1wire_write_props [of "rom_code dev" sizeof_rom_code m s2]
    by (simp add: s3_def sz del: upt_Suc)
  have t4: "trace (u1wire_byte_write c s3) = trace s3 @ byte_write_events c"
    by (simp add: byte_write_eq)
  have "emitted s1 (u1wire_byte_write c s3) =
          byte_write_events U1WIRE_MATCH_ROM @
          concat (map (\<lambda>k. byte_write_events (m (rom_code dev + k))) [0..<8]) @
          byte_write_events c"
    by (simp add: emitted_def t2 t3 t4 del: upt_Suc)
  then have "written_bits (emitted s1 (u1wire_byte_write c s3)) =
          map (bit U1WIRE_MATCH_ROM) [0..<8] @
          concat (map (\<lambda>k. map (bit (m (rom_code dev + k))) [0..<8]) [0..<8]) @
          map (bit c) [0..<8]"
    using written_bits_byte_write [of c "[]"]
    by (simp add: written_bits_byte_write written_bits_bytes del: upt_Suc)
  also have "\<dots> = concat (map (\<lambda>v. map (bit v) [0..<8]) bytes)"
    by (simp add: bytes_def map_upt_offset comp_def del: upt_Suc)
  finally show ?thesis
    unfolding eq s1_def [symmetric] bytes_def [symmetric]
    by (simp add: bytes_of_bits_bytes)
qed

lemma U1WIRE_RELEASE_level: "level (U1WIRE_RELEASE s) = level s" "tests (U1WIRE_RELEASE s) = tests s"
  by (simp_all add: prim_defs)

lemma reset_ok_ret:
  "level s (tests s) \<Longrightarrow> \<not> level s (tests s + 1) \<Longrightarrow> level s (tests s + 2) \<Longrightarrow>
   \<not> level s (tests s + 3) \<Longrightarrow> \<not> level s (tests s + 4) \<Longrightarrow> level s (tests s + 5) \<Longrightarrow>
   fst (u1wire_reset E s) = 1 \<and> tests (snd (u1wire_reset E s)) = tests s + 6"
  by (simp add: reset_ok)

section \<open>Every operation begins with a reset\<close>

text \<open>
  C3. The events of \<^verbatim>\<open>u1wire_rom_code_read\<close>, \<^verbatim>\<open>u1wire_command\<close> and
  \<^verbatim>\<open>u1wire_broadcast\<close> begin with the events of \<^verbatim>\<open>u1wire_reset\<close> run from the same state.
  When that reset returns anything but 1, the operation returns the same value and leaves
  the bus in the state in which the reset left it, and the memory as it was: nothing is
  written or read after the reset.
\<close>

theorem u1wire_operations_reset_first:
  "prefix (trace (snd (u1wire_reset E s))) (trace (snd (snd (u1wire_rom_code_read E dev m s)))) \<and>
   prefix (trace (snd (u1wire_reset E s))) (trace (snd (u1wire_command E dev c m s))) \<and>
   prefix (trace (snd (u1wire_reset E s))) (trace (snd (u1wire_broadcast E c s))) \<and>
   (fst (u1wire_reset E s) \<noteq> 1 \<longrightarrow>
      u1wire_rom_code_read E dev m s = (fst (u1wire_reset E s), m, snd (u1wire_reset E s)) \<and>
      u1wire_command E dev c m s = (fst (u1wire_reset E s), snd (u1wire_reset E s)) \<and>
      u1wire_broadcast E c s = (fst (u1wire_reset E s), snd (u1wire_reset E s)))"
proof (cases "fst (u1wire_reset E s) = 1")
  case False
  then show ?thesis
    by (simp add: rom_code_read_fail command_fail broadcast_fail)
next
  case True
  have "prefix (trace (snd (u1wire_reset E s))) (trace (snd (snd (u1wire_rom_code_read E dev m s))))"
    unfolding rom_code_read_ok [OF True] snd_conv
    by (rule prefix_order.trans [OF byte_write_prefix
          prefix_order.trans [OF u1wire_read_prefix byte_write_prefix]])
  moreover
  have "prefix (trace (snd (u1wire_reset E s))) (trace (snd (u1wire_command E dev c m s)))"
    unfolding command_ok [OF True] snd_conv
    by (rule prefix_order.trans [OF byte_write_prefix
          prefix_order.trans [OF u1wire_write_prefix byte_write_prefix]])
  moreover
  have "prefix (trace (snd (u1wire_reset E s))) (trace (snd (u1wire_broadcast E c s)))"
    unfolding broadcast_ok [OF True] snd_conv
    by (rule prefix_order.trans [OF byte_write_prefix byte_write_prefix])
  ultimately show ?thesis using True by simp
qed

theorem u1wire_operations_reset_first_witness:
  "fst (u1wire_reset example_errs (idle_bus True [False])) \<noteq> 1 \<and>
   u1wire_rom_code_read example_errs 0 (mem_of []) (idle_bus True [False]) =
     (fst (u1wire_reset example_errs (idle_bus True [False])), mem_of [],
      snd (u1wire_reset example_errs (idle_bus True [False]))) \<and>
   u1wire_command example_errs 0 0x44 (mem_of []) (idle_bus True [False]) =
     (fst (u1wire_reset example_errs (idle_bus True [False])),
      snd (u1wire_reset example_errs (idle_bus True [False]))) \<and>
   u1wire_broadcast example_errs 0x44 (idle_bus True [False]) =
     (fst (u1wire_reset example_errs (idle_bus True [False])),
      snd (u1wire_reset example_errs (idle_bus True [False])))"
proof -
  have h: "fst (u1wire_reset example_errs (idle_bus True [False])) \<noteq> 1"
    by (simp add: reset_bus_low idle_bus_def levels_of_def example_errs_def)
  from h u1wire_operations_reset_first
    [of example_errs "idle_bus True [False]" 0 "mem_of []" "0x44"]
  show ?thesis by blast
qed

section \<open>ROM code round trip\<close>

text \<open>
  C7. Let \<^verbatim>\<open>u1wire_init\<close> return 1, with memory \<open>m'\<close> and bus state \<open>s'\<close>, and let
  \<^verbatim>\<open>u1wire_command\<close> on the same device then return 1. The 8 bytes of the device's
  \<^verbatim>\<open>rom_code\<close> are the bytes that the line returned in the 64 read slots after the reset
  of the discovery, and the bytes that the command writes after its reset are
  \<^verbatim>\<open>U1WIRE_MATCH_ROM\<close>, those 8 bytes in the same order, and the command byte.
\<close>

theorem u1wire_rom_code_round_trip:
  assumes "u1wire_init E dev m s = (1, m', s')"
    and "u1wire_command E dev c m' s' = (1, s'')"
  shows "map m' [rom_code dev..<rom_code dev + 8] =
           bytes_of_bits (next_levels (snd (u1wire_reset E (U1WIRE_RELEASE s))) 64) \<and>
         bytes_of_bits (written_bits (emitted (snd (u1wire_reset E s')) s'')) =
           U1WIRE_MATCH_ROM # map m' [rom_code dev..<rom_code dev + 8] @ [c]"
proof -
  from assms(1) have r1: "fst (u1wire_reset E (U1WIRE_RELEASE s)) = 1"
    using rom_code_read_ret [of E dev m "U1WIRE_RELEASE s"] by (simp add: u1wire_init_def)
  from assms(2) have r2: "fst (u1wire_reset E s') = 1"
    using command_ret [of E dev c m' s'] by simp
  from assms(1) have m': "m' = fst (snd (u1wire_rom_code_read E dev m (U1WIRE_RELEASE s)))"
    by (simp add: u1wire_init_def)
  from assms(2) have s'': "s'' = snd (u1wire_command E dev c m' s')"
    by simp
  show ?thesis
    unfolding s'' using rom_code_read_ok_props(1) [OF r1, of dev m, folded m'] command_ok_written [OF r2]
    by simp
qed

lemma levels_of_append: "levels_of (xs @ ys) (length xs + k) = levels_of ys k"
  by (simp add: levels_of_def)

lemma next_levels_window:
  assumes "level s = levels_of (xs @ ys @ zs)" and "tests s = length xs" and "n = length ys"
  shows "next_levels s n = ys"
  by (rule nth_equalityI) (simp_all add: assms next_levels_def levels_of_def nth_append)

lemma length_rom_bits: "length rom_bits = 64"
  by (simp add: rom_bits_def example_rom_def length_concat_bytes)

theorem u1wire_rom_code_round_trip_witness:
  "fst (u1wire_init example_errs 0 (mem_of [1, 2, 3, 4, 5, 6, 7, 8])
     (idle_bus True rom_levels)) = 1 \<and>
   fst (u1wire_command example_errs 0 0x44
     (fst (snd (u1wire_init example_errs 0 (mem_of [1, 2, 3, 4, 5, 6, 7, 8])
       (idle_bus True rom_levels))))
     (snd (snd (u1wire_init example_errs 0 (mem_of [1, 2, 3, 4, 5, 6, 7, 8])
       (idle_bus True rom_levels))))) = 1 \<and>
   map (fst (snd (u1wire_init example_errs 0 (mem_of [1, 2, 3, 4, 5, 6, 7, 8])
       (idle_bus True rom_levels))))
       [rom_code 0..<rom_code 0 + 8] =
     [0x28, 0xff, 0x4b, 0x46, 0x92, 0x16, 0x04, 0x5d] \<and>
   bytes_of_bits (written_bits (emitted
       (snd (u1wire_reset example_errs
         (snd (snd (u1wire_init example_errs 0 (mem_of [1, 2, 3, 4, 5, 6, 7, 8])
           (idle_bus True rom_levels))))))
       (snd (u1wire_command example_errs 0 0x44
         (fst (snd (u1wire_init example_errs 0 (mem_of [1, 2, 3, 4, 5, 6, 7, 8])
           (idle_bus True rom_levels))))
         (snd (snd (u1wire_init example_errs 0 (mem_of [1, 2, 3, 4, 5, 6, 7, 8])
           (idle_bus True rom_levels)))))))) =
     [0x55, 0x28, 0xff, 0x4b, 0x46, 0x92, 0x16, 0x04, 0x5d, 0x44]"
proof -
  let ?s = "idle_bus True rom_levels"
  let ?i = "u1wire_init example_errs 0 (mem_of [1, 2, 3, 4, 5, 6, 7, 8]) ?s"
  let ?c = "u1wire_command example_errs 0 0x44 (fst (snd ?i)) (snd (snd ?i))"
  let ?s1 = "snd (u1wire_reset example_errs (U1WIRE_RELEASE ?s))"
  have r1: "fst (u1wire_reset example_errs (U1WIRE_RELEASE ?s)) = 1 \<and>
      tests ?s1 = tests (U1WIRE_RELEASE ?s) + 6"
    by (rule reset_ok_ret)
      (simp_all add: U1WIRE_RELEASE_level idle_bus_level levels_of_def rom_levels_def
        presence_levels_def)
  then have h1: "fst ?i = 1"
    by (simp add: u1wire_init_def rom_code_read_ret)
  have s1: "level ?s1 = levels_of (presence_levels @ rom_bits @ presence_levels)"
      "tests ?s1 = length presence_levels"
    using r1
    by (simp_all add: reset_level U1WIRE_RELEASE_level idle_bus_level rom_levels_def
        presence_levels_def)
  have "next_levels ?s1 64 = rom_bits"
    using s1 by (rule next_levels_window) (simp add: length_rom_bits)
  then have answered: "bytes_of_bits (next_levels ?s1 64) = example_rom"
    by (simp add: rom_bits_def bytes_of_bits_bytes)
  have s': "level (snd (snd ?i)) = levels_of rom_levels" "tests (snd (snd ?i)) = 70"
    using r1 rom_code_read_ok_props(2,3)
      [of example_errs "U1WIRE_RELEASE ?s" 0 "mem_of [1, 2, 3, 4, 5, 6, 7, 8]"]
    by (simp_all add: u1wire_init_def U1WIRE_RELEASE_level idle_bus_level)
  have at70: "levels_of rom_levels (70 + k) = levels_of presence_levels k" for k
    using levels_of_append [of "presence_levels @ rom_bits" presence_levels k]
    by (simp add: rom_levels_def length_rom_bits presence_levels_def)
  have p: "levels_of rom_levels 70" "\<not> levels_of rom_levels 71" "levels_of rom_levels 72"
      "\<not> levels_of rom_levels 73" "\<not> levels_of rom_levels 74" "levels_of rom_levels 75"
    using at70 [of 0] at70 [of 1] at70 [of 2] at70 [of 3] at70 [of 4] at70 [of 5]
    by (simp_all add: levels_of_def presence_levels_def)
  have r2: "fst (u1wire_reset example_errs (snd (snd ?i))) = 1 \<and>
      tests (snd (u1wire_reset example_errs (snd (snd ?i)))) = tests (snd (snd ?i)) + 6"
    by (rule reset_ok_ret; simp only: s'; simp add: p)
  then have h2: "fst ?c = 1"
    by (simp add: command_ret)
  have e1: "?i = (1, fst (snd ?i), snd (snd ?i))"
    using h1 by (simp add: prod_eq_iff)
  have e2: "?c = (1, snd ?c)"
    using h2 by (simp add: prod_eq_iff)
  from h1 h2 u1wire_rom_code_round_trip [OF e1 e2] answered
  show ?thesis
    by (simp add: example_rom_def U1WIRE_MATCH_ROM_def)
qed

end
